theory Spec2Isabelle
  imports Complex_Main
begin

section \<open>Monte Carlo GBM path simulator (streamlit\_app.py)\<close>

text \<open>
  The program is one numerical kernel, \<open>geo_paths\<close>, and two reductions over the last
  row of its result (\<open>paths[-1].mean()\<close>, \<open>paths[-1].std()\<close>).

  Numbers. NumPy computes on float64. The embedding keeps the special values of
  float64 that the source can produce from finite arguments (\<open>np.log\<close> of a
  non-positive number, \<open>np.sqrt\<close> of a negative number, \<open>0.0 / 0\<close>) as constructors.
  It reads the code twice. The first reading takes every finite value as the real
  number it stands for: it is the program as long as no result leaves the range of
  float64, and the scenario, the statistics of one path, determinism, the independence
  of the columns and the call site are stated on it. The second reading (section
  ``The limits of float64'') adds overflow, underflow and the errors Python and NumPy
  raise at the limits; the statements that quantify over all admissible inputs are
  made on it, and the two readings agree while a run stays in range. Rounding of a
  result inside the range is not modelled in either.
\<close>

subsection \<open>Values and errors\<close>

datatype py_error = ZeroDivisionError | ValueError | IndexError | OverflowError | MemoryError

datatype float64 = Fin real | PosInf | NegInf | NaN

fun np_add :: "float64 \<Rightarrow> float64 \<Rightarrow> float64" where
  "np_add (Fin a) (Fin b) = Fin (a + b)"
| "np_add NaN _ = NaN"
| "np_add _ NaN = NaN"
| "np_add PosInf NegInf = NaN"
| "np_add NegInf PosInf = NaN"
| "np_add PosInf _ = PosInf"
| "np_add _ PosInf = PosInf"
| "np_add NegInf _ = NegInf"
| "np_add _ NegInf = NegInf"

fun np_negative :: "float64 \<Rightarrow> float64" where
  "np_negative (Fin a) = Fin (- a)"
| "np_negative PosInf = NegInf"
| "np_negative NegInf = PosInf"
| "np_negative NaN = NaN"

definition np_subtract :: "float64 \<Rightarrow> float64 \<Rightarrow> float64" where
  "np_subtract x y = np_add x (np_negative y)"

fun np_multiply :: "float64 \<Rightarrow> float64 \<Rightarrow> float64" where
  "np_multiply (Fin a) (Fin b) = Fin (a * b)"
| "np_multiply NaN _ = NaN"
| "np_multiply _ NaN = NaN"
| "np_multiply (Fin a) PosInf = (if a = 0 then NaN else if 0 < a then PosInf else NegInf)"
| "np_multiply (Fin a) NegInf = (if a = 0 then NaN else if 0 < a then NegInf else PosInf)"
| "np_multiply PosInf (Fin b) = (if b = 0 then NaN else if 0 < b then PosInf else NegInf)"
| "np_multiply NegInf (Fin b) = (if b = 0 then NaN else if 0 < b then NegInf else PosInf)"
| "np_multiply PosInf PosInf = PosInf"
| "np_multiply NegInf NegInf = PosInf"
| "np_multiply PosInf NegInf = NegInf"
| "np_multiply NegInf PosInf = NegInf"

text \<open>\<open>np.true_divide(x, n)\<close> by an element count \<open>n\<close> (a non-negative integer).\<close>

fun np_true_divide :: "float64 \<Rightarrow> nat \<Rightarrow> float64" where
  "np_true_divide (Fin a) n =
     (if n = 0 then (if a = 0 then NaN else if 0 < a then PosInf else NegInf)
      else Fin (a / real n))"
| "np_true_divide PosInf n = PosInf"
| "np_true_divide NegInf n = NegInf"
| "np_true_divide NaN n = NaN"

fun np_sqrt :: "float64 \<Rightarrow> float64" where
  "np_sqrt (Fin a) = (if a < 0 then NaN else Fin (sqrt a))"
| "np_sqrt PosInf = PosInf"
| "np_sqrt NegInf = NaN"
| "np_sqrt NaN = NaN"

fun np_log :: "float64 \<Rightarrow> float64" where
  "np_log (Fin a) = (if 0 < a then Fin (ln a) else if a = 0 then NegInf else NaN)"
| "np_log PosInf = PosInf"
| "np_log NegInf = NaN"
| "np_log NaN = NaN"

fun np_exp :: "float64 \<Rightarrow> float64" where
  "np_exp (Fin a) = Fin (exp a)"
| "np_exp PosInf = PosInf"
| "np_exp NegInf = Fin 0"
| "np_exp NaN = NaN"

subsection \<open>The random source\<close>

text \<open>
  \<open>np.random.normal\<close> reads the global generator. Its state is the stream of
  standard-normal draws it will deliver next; \<open>size=(steps, N)\<close> takes the first
  \<open>steps * N\<close> of them, fills the array in row-major order and leaves the rest.
  A negative dimension raises \<open>ValueError\<close>.
\<close>

type_synonym rng = "nat \<Rightarrow> real"

definition random_normal :: "int \<Rightarrow> int \<Rightarrow> rng \<Rightarrow> py_error + (float64 list list \<times> rng)" where
  "random_normal steps N g =
     (if steps < 0 \<or> N < 0 then Inl ValueError
      else Inr (map (\<lambda>i. map (\<lambda>j. Fin (g (i * nat N + j))) [0..<nat N]) [0..<nat steps],
                (\<lambda>k. g (k + nat steps * nat N))))"

subsection \<open>Cumulative sum along axis 0\<close>

fun cumsum_from :: "float64 list \<Rightarrow> float64 list list \<Rightarrow> float64 list list" where
  "cumsum_from acc [] = []"
| "cumsum_from acc (row # rows) =
     (let acc' = map2 np_add acc row in acc' # cumsum_from acc' rows)"

fun cumsum :: "float64 list list \<Rightarrow> float64 list list" where
  "cumsum [] = []"
| "cumsum (row # rows) = row # cumsum_from row rows"

subsection \<open>geo\_paths\<close>

text \<open>
  \<^verbatim>\<open>
  def geo_paths(S, T, r, q, sigma, steps, N):
      dt = T / steps
      ST = np.log(S) + np.cumsum(((r - q - sigma**2 / 2) * dt +
                                  sigma * np.sqrt(dt) *
                                  np.random.normal(size=(steps, N))), axis=0)
      return np.exp(ST)
  \<close>
  \<open>T / steps\<close> is Python's division and raises \<open>ZeroDivisionError\<close> for
  \<open>steps = 0\<close>. The function checks nothing else.
\<close>

definition geo_paths ::
  "real \<Rightarrow> real \<Rightarrow> real \<Rightarrow> real \<Rightarrow> real \<Rightarrow> int \<Rightarrow> int \<Rightarrow> rng
     \<Rightarrow> py_error + (float64 list list \<times> rng)" where
  "geo_paths S T r q sigma steps N g =
     (if steps = 0 then Inl ZeroDivisionError
      else
        let dt = T / real_of_int steps in
        case random_normal steps N g of
          Inl e \<Rightarrow> Inl e
        | Inr (z, g') \<Rightarrow>
            let ST = map (map (np_add (np_log (Fin S))))
                       (cumsum (map (map (\<lambda>x.
                          np_add (Fin ((r - q - sigma\<^sup>2 / 2) * dt))
                                 (np_multiply (np_multiply (Fin sigma) (np_sqrt (Fin dt))) x)))
                          z))
            in Inr (map (map np_exp) ST, g'))"

subsection \<open>Terminal statistics\<close>

text \<open>
  \<open>paths[-1]\<close> is the last row; on an array with no rows it raises \<open>IndexError\<close>.
  \<open>mean\<close> is \<open>sum / count\<close>; \<open>std\<close> (default \<open>ddof = 0\<close>) is the square root of
  \<open>sum((x - mean) * (x - mean)) / count\<close>. The page prints both numbers (lines 83 and 84);
  \<open>summarize\<close> is the pair of them.
\<close>

definition np_sum :: "float64 list \<Rightarrow> float64" where
  "np_sum xs = foldl np_add (Fin 0) xs"

definition mean :: "float64 list \<Rightarrow> float64" where
  "mean xs = np_true_divide (np_sum xs) (length xs)"

definition std :: "float64 list \<Rightarrow> float64" where
  "std xs =
     (let arrmean = np_true_divide (np_sum xs) (length xs);
          x = map (\<lambda>a. np_subtract a arrmean) xs;
          x2 = map (\<lambda>d. np_multiply d d) x
      in np_sqrt (np_true_divide (np_sum x2) (length xs - 0)))"

definition summarize :: "float64 list list \<Rightarrow> py_error + (float64 \<times> float64)" where
  "summarize paths =
     (if paths = [] then Inl IndexError
      else Inr (mean (last paths), std (last paths)))"

subsection \<open>The call site\<close>

text \<open>
  The page fixes \<open>steps = 100\<close> and passes the literal \<open>0\<close> for \<open>q\<close>:
  \<^verbatim>\<open>paths = geo_paths(S0, T, r, 0, sigma, steps, N)\<close>.
\<close>

definition steps_fixed :: int where
  "steps_fixed = 100"

definition page_paths ::
  "real \<Rightarrow> real \<Rightarrow> real \<Rightarrow> real \<Rightarrow> int \<Rightarrow> rng \<Rightarrow> py_error + (float64 list list \<times> rng)" where
  "page_paths S0 T r sigma N g = geo_paths S0 T r 0 sigma steps_fixed N g"

text \<open>The degenerate source of the regression scenario: every draw is zero.\<close>

definition zero_draws :: rng where
  "zero_draws k = 0"

subsection \<open>Columns and a second draw source\<close>

text \<open>\<open>P[:, j]\<close>: column \<open>j\<close> of an array, one simulated trajectory.\<close>

definition column :: "nat \<Rightarrow> float64 list list \<Rightarrow> float64 list" where
  "column j P = map (\<lambda>row. row ! j) P"

text \<open>A source that differs from \<open>zero_draws\<close> in its second draw only.\<close>

definition spike_draws :: rng where
  "spike_draws k = (if k = 1 then 1 else 0)"

section \<open>The limits of float64\<close>

text \<open>
  The definitions above read every finite float64 as a real number; they describe the
  program as long as no result leaves the range of float64. The definitions of this
  section add what the same source does at the limits: a result too large becomes
  \<open>inf\<close>, a product, quotient or exponential too small becomes \<open>0.0\<close>, Python's \<open>**\<close> and
  its conversion of an \<open>int\<close> to \<open>float\<close> raise \<open>OverflowError\<close>, and NumPy refuses an array
  whose dimensions or byte size exceed \<open>intp\<close> or that it cannot allocate. Rounding of a
  result inside the range is still not modelled. The scalar arguments are typed as the
  page passes them: \<open>T\<close>, \<open>r\<close>, \<open>q\<close>, \<open>sigma\<close> are Python numbers (so \<open>T / steps\<close> is Python's
  division), \<open>S\<close> is a NumPy float64, \<open>steps\<close> and \<open>N\<close> are Python ints. \<open>intp\<close> is that of a
  64-bit build.
\<close>

subsection \<open>Range\<close>

text \<open>
  With round-to-nearest, a result of magnitude \<open>2^1024 - 2^970\<close> or more becomes an
  infinity, and a non-zero result of magnitude \<open>2^-1075\<close> or less becomes zero.
\<close>

definition float_ovf :: real where
  "float_ovf = 2 ^ 1024 - 2 ^ 970"

definition float_udf :: real where
  "float_udf = 1 / 2 ^ 1075"

definition fl_ovf :: "real \<Rightarrow> float64" where
  "fl_ovf x = (if float_ovf \<le> x then PosInf else if x \<le> - float_ovf then NegInf else Fin x)"

definition fl :: "real \<Rightarrow> float64" where
  "fl x = (if x \<noteq> 0 \<and> \<bar>x\<bar> \<le> float_udf then Fin 0 else fl_ovf x)"

text \<open>\<open>in_range x\<close>: a result whose exact value is \<open>x\<close> is kept: \<open>fl x = Fin x\<close>.\<close>

definition in_range :: "real \<Rightarrow> bool" where
  "in_range x \<longleftrightarrow> \<bar>x\<bar> < float_ovf \<and> (x = 0 \<or> float_udf < \<bar>x\<bar>)"

subsection \<open>Arithmetic with range\<close>

text \<open>
  A sum of two float64 numbers cannot underflow, so addition only overflows. On the
  special values the operations are those of the first section.
\<close>

fun f64_add :: "float64 \<Rightarrow> float64 \<Rightarrow> float64" where
  "f64_add (Fin a) (Fin b) = fl_ovf (a + b)"
| "f64_add x y = np_add x y"

definition f64_subtract :: "float64 \<Rightarrow> float64 \<Rightarrow> float64" where
  "f64_subtract x y = f64_add x (np_negative y)"

fun f64_multiply :: "float64 \<Rightarrow> float64 \<Rightarrow> float64" where
  "f64_multiply (Fin a) (Fin b) = fl (a * b)"
| "f64_multiply x y = np_multiply x y"

fun f64_true_divide :: "float64 \<Rightarrow> nat \<Rightarrow> float64" where
  "f64_true_divide (Fin a) n = (if n = 0 then np_true_divide (Fin a) n else fl (a / real n))"
| "f64_true_divide x n = np_true_divide x n"

fun f64_sqrt :: "float64 \<Rightarrow> float64" where
  "f64_sqrt (Fin a) = (if a < 0 then NaN else fl (sqrt a))"
| "f64_sqrt x = np_sqrt x"

fun f64_log :: "float64 \<Rightarrow> float64" where
  "f64_log (Fin a) = (if 0 < a then fl (ln a) else np_log (Fin a))"
| "f64_log x = np_log x"

fun f64_exp :: "float64 \<Rightarrow> float64" where
  "f64_exp (Fin a) = fl (exp a)"
| "f64_exp x = np_exp x"

subsection \<open>Errors and the array allocator\<close>

text \<open>
  Whether NumPy obtains the memory of a new array is the machine's business: \<open>alloc n\<close>
  says that a block of \<open>n\<close> bytes is granted, and is a parameter of the model; a refusal
  is a \<open>MemoryError\<close>. The arrays of one call of \<open>geo_paths\<close> all have the size of the first.
\<close>

definition intp_max :: int where
  "intp_max = 2 ^ 63 - 1"

text \<open>
  \<open>np.random.normal(size=(steps, N))\<close> creates its result with \<open>np.empty\<close>, which raises
  \<open>ValueError\<close> for a negative dimension, for a dimension above \<open>intp\<close>, and when the
  byte size, 8 times the product of the non-zero dimensions, is above \<open>intp\<close>.
\<close>

definition random_normal_f64 ::
  "(nat \<Rightarrow> bool) \<Rightarrow> int \<Rightarrow> int \<Rightarrow> rng \<Rightarrow> py_error + (float64 list list \<times> rng)" where
  "random_normal_f64 alloc steps N g =
     (if steps < 0 \<or> N < 0 \<or> intp_max < steps \<or> intp_max < N
         \<or> intp_max < 8 * (if steps = 0 then 1 else steps) * (if N = 0 then 1 else N)
      then Inl ValueError
      else if \<not> alloc (8 * nat steps * nat N) then Inl MemoryError
      else Inr (map (\<lambda>i. map (\<lambda>j. Fin (g (i * nat N + j))) [0..<nat N]) [0..<nat steps],
                (\<lambda>k. g (k + nat steps * nat N))))"

subsection \<open>Cumulative sum, geo\_paths and the statistics with range\<close>

fun cumsum_from_f64 :: "float64 list \<Rightarrow> float64 list list \<Rightarrow> float64 list list" where
  "cumsum_from_f64 acc [] = []"
| "cumsum_from_f64 acc (row # rows) =
     (let acc' = map2 f64_add acc row in acc' # cumsum_from_f64 acc' rows)"

fun cumsum_f64 :: "float64 list list \<Rightarrow> float64 list list" where
  "cumsum_f64 [] = []"
| "cumsum_f64 (row # rows) = row # cumsum_from_f64 row rows"

text \<open>
  In the order in which Python evaluates the body: \<open>T / steps\<close> converts \<open>steps\<close> to a
  float (\<open>OverflowError\<close> when it is too large) and raises \<open>ZeroDivisionError\<close> for
  \<open>steps = 0\<close>; \<open>np.log(S)\<close> only warns; \<open>sigma**2\<close> raises \<open>OverflowError\<close> when the square
  overflows, while \<open>-\<close>, \<open>*\<close> and \<open>/ 2\<close> on Python floats return \<open>inf\<close> silently; then the
  draws are requested.
\<close>

definition geo_paths_f64 ::
  "(nat \<Rightarrow> bool) \<Rightarrow> real \<Rightarrow> real \<Rightarrow> real \<Rightarrow> real \<Rightarrow> real \<Rightarrow> int \<Rightarrow> int \<Rightarrow> rng
     \<Rightarrow> py_error + (float64 list list \<times> rng)" where
  "geo_paths_f64 alloc S T r q sigma steps N g =
     (if float_ovf \<le> \<bar>real_of_int steps\<bar> then Inl OverflowError
      else if steps = 0 then Inl ZeroDivisionError
      else if float_ovf \<le> sigma\<^sup>2 then Inl OverflowError
      else
        let dt = fl (T / real_of_int steps);
            drift = f64_multiply
                      (f64_subtract (f64_subtract (Fin r) (Fin q))
                                    (f64_true_divide (fl (sigma\<^sup>2)) 2))
                      dt;
            vol = f64_multiply (Fin sigma) (f64_sqrt dt)
        in
        case random_normal_f64 alloc steps N g of
          Inl e \<Rightarrow> Inl e
        | Inr (z, g') \<Rightarrow>
            let ST = map (map (f64_add (f64_log (Fin S))))
                       (cumsum_f64 (map (map (\<lambda>x. f64_add drift (f64_multiply vol x))) z))
            in Inr (map (map f64_exp) ST, g'))"

text \<open>
  The intermediate results of one run, as exact values: the run stays in range when each
  of them is kept and every log-price lies between \<open>-600\<close> and \<open>600\<close>, well inside the
  range of \<open>np.exp\<close>.
\<close>

definition stays_in_range :: "real \<Rightarrow> real \<Rightarrow> real \<Rightarrow> real \<Rightarrow> real \<Rightarrow> int \<Rightarrow> int \<Rightarrow> rng \<Rightarrow> bool" where
  "stays_in_range S T r q sigma steps N g \<longleftrightarrow>
     (let dt = T / real_of_int steps;
          d = (r - q - sigma\<^sup>2 / 2) * dt;
          v = sigma * sqrt dt
      in in_range dt \<and> in_range (r - q) \<and> in_range (sigma\<^sup>2) \<and> in_range (sigma\<^sup>2 / 2)
         \<and> in_range (r - q - sigma\<^sup>2 / 2) \<and> in_range d \<and> in_range (sqrt dt) \<and> in_range v
         \<and> in_range (ln S)
         \<and> (\<forall>i<nat steps. \<forall>j<nat N.
               in_range (v * g (i * nat N + j))
             \<and> in_range (d + v * g (i * nat N + j))
             \<and> in_range (\<Sum>k\<le>i. d + v * g (k * nat N + j))
             \<and> in_range (ln S + (\<Sum>k\<le>i. d + v * g (k * nat N + j)))
             \<and> \<bar>ln S + (\<Sum>k\<le>i. d + v * g (k * nat N + j))\<bar> \<le> 600))"





text \<open>A machine that grants every allocation.\<close>

definition unlimited :: "nat \<Rightarrow> bool" where
  "unlimited n = True"

section \<open>Properties\<close>

subsection \<open>The closed form of the kernel\<close>

lemma map2_same: "map2 f (map g xs) (map h xs) = map (\<lambda>x. f (g x) (h x)) xs"
  by (induction xs) simp_all

lemma sum_head: "s \<le> i \<Longrightarrow> (c::real) + f s + (\<Sum>k = Suc s..i. f k) = c + (\<Sum>k = s..i. f k)"
  by (simp add: sum.atLeast_Suc_atMost)

lemma cumsum_from_Fin:
  "cumsum_from (map (\<lambda>j. Fin (a j)) [0..<n])
       (map (\<lambda>i. map (\<lambda>j. Fin (f i j)) [0..<n]) [s..<s + m])
   = map (\<lambda>i. map (\<lambda>j. Fin (a j + (\<Sum>k = s..i. f k j))) [0..<n]) [s..<s + m]"
proof (induction m arbitrary: s a)
  case 0
  then show ?case by simp
next
  case (Suc m)
  have split: "[s..<s + Suc m] = s # [Suc s..<Suc s + m]"
    by (simp add: upt_conv_Cons)
  have step: "map2 np_add (map (\<lambda>j. Fin (a j)) [0..<n]) (map (\<lambda>j. Fin (f s j)) [0..<n])
        = map (\<lambda>j. Fin (a j + f s j)) [0..<n]"
    by (simp add: map2_same)
  have tail: "map (\<lambda>i. map (\<lambda>j. Fin (a j + f s j + (\<Sum>k = Suc s..i. f k j))) [0..<n]) [Suc s..<Suc s + m]
      = map (\<lambda>i. map (\<lambda>j. Fin (a j + (\<Sum>k = s..i. f k j))) [0..<n]) [Suc s..<Suc s + m]"
  proof (rule map_cong[OF refl])
    fix i assume "i \<in> set [Suc s..<Suc s + m]"
    then have "s \<le> i" by auto
    then have "\<And>j. a j + f s j + (\<Sum>k = Suc s..i. f k j) = a j + (\<Sum>k = s..i. f k j)"
      by (simp add: sum.atLeast_Suc_atMost)
    then show "map (\<lambda>j. Fin (a j + f s j + (\<Sum>k = Suc s..i. f k j))) [0..<n]
       = map (\<lambda>j. Fin (a j + (\<Sum>k = s..i. f k j))) [0..<n]"
      by (simp only:)
  qed
  have "cumsum_from (map (\<lambda>j. Fin (a j)) [0..<n])
       (map (\<lambda>i. map (\<lambda>j. Fin (f i j)) [0..<n]) (s # [Suc s..<Suc s + m]))
     = map (\<lambda>j. Fin (a j + f s j)) [0..<n]
       # map (\<lambda>i. map (\<lambda>j. Fin (a j + f s j + (\<Sum>k = Suc s..i. f k j))) [0..<n]) [Suc s..<Suc s + m]"
    by (simp only: list.map cumsum_from.simps Let_def step Suc.IH[of "\<lambda>j. a j + f s j" "Suc s"])
  also have "\<dots> = map (\<lambda>i. map (\<lambda>j. Fin (a j + (\<Sum>k = s..i. f k j))) [0..<n]) (s # [Suc s..<Suc s + m])"
    by (simp only: tail list.map) simp
  finally show ?case
    by (simp only: split)
qed

lemma cumsum_Fin:
  "cumsum (map (\<lambda>i. map (\<lambda>j. Fin (f i j)) [0..<n]) [0..<m])
   = map (\<lambda>i. map (\<lambda>j. Fin (\<Sum>k\<le>i. f k j)) [0..<n]) [0..<m]"
proof (cases m)
  case 0
  then show ?thesis by simp
next
  case (Suc m')
  have split: "[0..<Suc m'] = 0 # [Suc 0..<Suc 0 + m']"
    by (simp add: upt_conv_Cons)
  have tail: "map (\<lambda>i. map (\<lambda>j. Fin (f 0 j + (\<Sum>k = Suc 0..i. f k j))) [0..<n]) [Suc 0..<Suc 0 + m']
      = map (\<lambda>i. map (\<lambda>j. Fin (\<Sum>k\<le>i. f k j)) [0..<n]) [Suc 0..<Suc 0 + m']"
    by (rule map_cong[OF refl]) (simp add: atMost_atLeast0 sum.atLeast_Suc_atMost)
  have "cumsum (map (\<lambda>i. map (\<lambda>j. Fin (f i j)) [0..<n]) (0 # [Suc 0..<Suc 0 + m']))
      = map (\<lambda>j. Fin (f 0 j)) [0..<n]
        # map (\<lambda>i. map (\<lambda>j. Fin (f 0 j + (\<Sum>k = Suc 0..i. f k j))) [0..<n]) [Suc 0..<Suc 0 + m']"
    by (simp only: list.map cumsum.simps cumsum_from_Fin[of "f 0" n f "Suc 0" m'])
  also have "\<dots> = map (\<lambda>i. map (\<lambda>j. Fin (\<Sum>k\<le>i. f k j)) [0..<n]) (0 # [Suc 0..<Suc 0 + m'])"
    by (simp only: tail list.map) simp
  finally show ?thesis
    by (simp only: Suc split)
qed


lemma random_normal_ok:
  "0 \<le> steps \<Longrightarrow> 0 \<le> N \<Longrightarrow>
   random_normal steps N g =
     Inr (map (\<lambda>i. map (\<lambda>j. Fin (g (i * nat N + j))) [0..<nat N]) [0..<nat steps],
          (\<lambda>k. g (k + nat steps * nat N)))"
  by (simp add: random_normal_def)

lemma geo_paths_closed_form:
  assumes S: "0 < S" and T: "0 \<le> T" and steps: "0 < steps" and N: "0 \<le> N"
  shows "geo_paths S T r q sigma steps N g =
     Inr (map (\<lambda>i. map (\<lambda>j. Fin (S * exp (\<Sum>k\<le>i.
                 (r - q - sigma\<^sup>2 / 2) * (T / real_of_int steps)
                 + sigma * sqrt (T / real_of_int steps) * g (k * nat N + j))))
               [0..<nat N]) [0..<nat steps],
          (\<lambda>k. g (k + nat steps * nat N)))"
proof -
  let ?dt = "T / real_of_int steps"
  let ?inc = "\<lambda>k j. (r - q - sigma\<^sup>2 / 2) * ?dt + sigma * sqrt ?dt * g (k * nat N + j)"
  have dt: "\<not> ?dt < 0"
    using T steps by (simp add: not_less)
  have incs: "map (map (\<lambda>x. np_add (Fin ((r - q - sigma\<^sup>2 / 2) * ?dt))
                   (np_multiply (np_multiply (Fin sigma) (np_sqrt (Fin ?dt))) x)))
        (map (\<lambda>i. map (\<lambda>j. Fin (g (i * nat N + j))) [0..<nat N]) [0..<nat steps])
      = map (\<lambda>i. map (\<lambda>j. Fin (?inc i j)) [0..<nat N]) [0..<nat steps]"
    using dt by (simp add: o_def)
  have logS: "np_log (Fin S) = Fin (ln S)"
    using S by simp
  have fin: "map (map np_exp) (map (map (np_add (Fin (ln S))))
        (map (\<lambda>i. map (\<lambda>j. Fin (\<Sum>k\<le>i. ?inc k j)) [0..<nat N]) [0..<nat steps]))
      = map (\<lambda>i. map (\<lambda>j. Fin (S * exp (\<Sum>k\<le>i. ?inc k j))) [0..<nat N]) [0..<nat steps]"
    using S by (simp add: o_def exp_add)
  have "geo_paths S T r q sigma steps N g =
      Inr (map (map np_exp) (map (map (np_add (np_log (Fin S))))
             (cumsum (map (map (\<lambda>x. np_add (Fin ((r - q - sigma\<^sup>2 / 2) * ?dt))
                   (np_multiply (np_multiply (Fin sigma) (np_sqrt (Fin ?dt))) x)))
               (map (\<lambda>i. map (\<lambda>j. Fin (g (i * nat N + j))) [0..<nat N]) [0..<nat steps])))),
           (\<lambda>k. g (k + nat steps * nat N)))"
    using steps N by (simp add: geo_paths_def random_normal_ok Let_def)
  also have "\<dots> = Inr (map (\<lambda>i. map (\<lambda>j. Fin (S * exp (\<Sum>k\<le>i. ?inc k j))) [0..<nat N]) [0..<nat steps],
           (\<lambda>k. g (k + nat steps * nat N)))"
    by (simp only: incs cumsum_Fin logS fin)
  finally show ?thesis .
qed

subsection \<open>The pure-drift scenario\<close>

lemma zero_draws_shift: "(\<lambda>k. zero_draws (k + n)) = zero_draws"
  by (rule ext) (simp add: zero_draws_def)

text \<open>
  C2. With \<open>S0 = 100\<close>, \<open>T = 1\<close>, \<open>r = 0.05\<close>, \<open>q = 0\<close>, \<open>sigma = 0.2\<close>, \<open>steps = 100\<close>,
  \<open>N = 1\<close> and a source whose draws are all zero, row \<open>i\<close> of the result is
  \<open>100 * exp ((0.05 - 0.02) * (i + 1) / 100)\<close> for \<open>i = 0, \<dots>, 99\<close>: the first stored entry
  is already one step after \<open>S0\<close>.
\<close>

theorem geo_paths_pure_drift_scenario:
  "geo_paths 100 1 (5/100) 0 (2/10) 100 1 zero_draws =
     Inr (map (\<lambda>i. [Fin (100 * exp ((5/100 - 2/100) * (real i + 1) / 100))]) [0..<100],
          zero_draws)"
proof -
  have "geo_paths 100 1 (5/100) 0 (2/10) 100 1 zero_draws =
     Inr (map (\<lambda>i. map (\<lambda>j. Fin (100 * exp (\<Sum>k\<le>i.
                 (5/100 - 0 - (2/10)\<^sup>2 / 2) * (1 / real_of_int 100)
                 + (2/10) * sqrt (1 / real_of_int 100) * zero_draws (k * nat 1 + j))))
               [0..<nat 1]) [0..<nat 100],
          (\<lambda>k. zero_draws (k + nat 100 * nat 1)))"
    by (rule geo_paths_closed_form) simp_all
  also have "(\<lambda>k. zero_draws (k + nat 100 * nat 1)) = zero_draws"
    by (rule zero_draws_shift)
  also have "map (\<lambda>i. map (\<lambda>j. Fin (100 * exp (\<Sum>k\<le>i.
                 (5/100 - 0 - (2/10)\<^sup>2 / 2) * (1 / real_of_int 100)
                 + (2/10) * sqrt (1 / real_of_int 100) * zero_draws (k * nat 1 + j))))
               [0..<nat 1]) [0..<nat 100]
      = map (\<lambda>i. [Fin (100 * exp ((5/100 - 2/100) * (real i + 1) / 100))]) [0..<100]"
    by (rule map_cong) (simp_all add: zero_draws_def power2_eq_square)
  finally show ?thesis .
qed

subsection \<open>Shape and failure modes\<close>

lemma length_cumsum_from: "length (cumsum_from acc M) = length M"
  by (induction M arbitrary: acc) (simp_all add: Let_def)

lemma length_cumsum: "length (cumsum M) = length M"
  by (cases M) (simp_all add: length_cumsum_from)

lemma cumsum_from_rows:
  "length acc = n \<Longrightarrow> \<forall>row\<in>set M. length row = n \<Longrightarrow> \<forall>row\<in>set (cumsum_from acc M). length row = n"
proof (induction M arbitrary: acc)
  case Nil
  then show ?case by simp
next
  case (Cons a M)
  from Cons.prems have "length (map2 np_add acc a) = n" by simp
  moreover from Cons.prems have "\<forall>row\<in>set M. length row = n" by simp
  ultimately have "\<forall>row\<in>set (cumsum_from (map2 np_add acc a) M). length row = n"
    by (rule Cons.IH)
  with Cons.prems show ?case by (simp add: Let_def)
qed

lemma map_map_rows:
  "\<forall>row\<in>set M. length row = n \<Longrightarrow> \<forall>row\<in>set (map (map h) M). length row = n"
  by simp

lemma block_rows: "\<forall>row\<in>set (map (\<lambda>i. map (f i) [0..<n]) xs). length row = n"
  by simp

lemma cumsum_rows:
  assumes "\<forall>row\<in>set M. length row = n"
  shows "\<forall>row\<in>set (cumsum M). length row = n"
proof (cases M)
  case Nil
  then show ?thesis by simp
next
  case (Cons a M')
  with assms have a: "length a = n" and M': "\<forall>row\<in>set M'. length row = n"
    by simp_all
  from a M' have "\<forall>row\<in>set (cumsum_from a M'). length row = n"
    by (rule cumsum_from_rows)
  with a Cons show ?thesis by simp
qed

lemma geo_paths_steps_zero: "geo_paths S T r q sigma 0 N g = Inl ZeroDivisionError"
  by (simp add: geo_paths_def)

lemma geo_paths_negative_dim:
  assumes "steps \<noteq> 0" and "steps < 0 \<or> N < 0"
  shows "geo_paths S T r q sigma steps N g = Inl ValueError"
proof -
  from assms(2) have "random_normal steps N g = Inl ValueError"
    by (simp add: random_normal_def)
  with assms(1) show ?thesis
    by (simp add: geo_paths_def)
qed

lemma geo_paths_unfold:
  assumes "0 < steps" and "0 \<le> N"
  shows "geo_paths S T r q sigma steps N g =
     Inr (map (map np_exp) (map (map (np_add (np_log (Fin S))))
            (cumsum (map (map (\<lambda>x. np_add (Fin ((r - q - sigma\<^sup>2 / 2) * (T / real_of_int steps)))
                (np_multiply (np_multiply (Fin sigma) (np_sqrt (Fin (T / real_of_int steps)))) x)))
              (map (\<lambda>i. map (\<lambda>j. Fin (g (i * nat N + j))) [0..<nat N]) [0..<nat steps])))),
          (\<lambda>k. g (k + nat steps * nat N)))"
proof -
  from assms have "random_normal steps N g =
      Inr (map (\<lambda>i. map (\<lambda>j. Fin (g (i * nat N + j))) [0..<nat N]) [0..<nat steps],
           (\<lambda>k. g (k + nat steps * nat N)))"
    by (simp add: random_normal_def)
  with assms(1) show ?thesis
    by (simp only: geo_paths_def Let_def sum.case prod.case) simp
qed

subsection \<open>Determinism\<close>

lemma random_normal_cong:
  assumes "\<forall>k < nat steps * nat N. g k = g' k"
  shows "map (\<lambda>i. map (\<lambda>j. Fin (g (i * nat N + j))) [0..<nat N]) [0..<nat steps]
       = map (\<lambda>i. map (\<lambda>j. Fin (g' (i * nat N + j))) [0..<nat N]) [0..<nat steps]"
proof (rule map_cong[OF refl], rule map_cong[OF refl])
  fix i j assume "i \<in> set [0..<nat steps]" "j \<in> set [0..<nat N]"
  then have i: "i < nat steps" and j: "j < nat N" by auto
  from i have "Suc i \<le> nat steps" by simp
  then have "Suc i * nat N \<le> nat steps * nat N" by (rule mult_le_mono1)
  with j have "i * nat N + j < nat steps * nat N" by simp
  with assms show "Fin (g (i * nat N + j)) = Fin (g' (i * nat N + j))" by simp
qed

text \<open>
  C9. The array returned by \<open>geo_paths\<close> (or its error) is a function of the parameters
  and of the \<open>steps * N\<close> draws it consumes: two sources that deliver the same first
  \<open>steps * N\<close> draws give the same output, whatever they deliver afterwards.
\<close>

theorem geo_paths_deterministic:
  assumes "\<forall>k < nat steps * nat N. g k = g' k"
  shows "map_sum id fst (geo_paths S T r q sigma steps N g)
       = map_sum id fst (geo_paths S T r q sigma steps N g')"
proof -
  consider "steps = 0" | "steps \<noteq> 0" "steps < 0 \<or> N < 0" | "0 < steps" "0 \<le> N"
    by linarith
  then show ?thesis
  proof cases
    case 1
    then show ?thesis by (simp only: geo_paths_steps_zero)
  next
    case 2
    then show ?thesis
      using geo_paths_negative_dim[of steps N S T r q sigma g]
        geo_paths_negative_dim[of steps N S T r q sigma g']
      by simp
  next
    case 3
    then show ?thesis
      by (simp only: geo_paths_unfold random_normal_cong[OF assms] map_sum.simps fst_conv)
  qed
qed

theorem geo_paths_deterministic_witness:
  "zero_draws 0 = spike_draws 0 \<and>
   map_sum id fst (geo_paths 100 1 (1/20) 0 (1/5) 1 1 zero_draws)
     = map_sum id fst (geo_paths 100 1 (1/20) 0 (1/5) 1 1 spike_draws)"
proof -
  have h0: "zero_draws 0 = spike_draws 0"
    by (simp add: zero_draws_def spike_draws_def)
  then have h: "\<forall>k < nat 1 * nat 1. zero_draws k = spike_draws k"
    by simp
  from h0 geo_paths_deterministic[OF h, of 100 1 "1/20" 0 "1/5"] show ?thesis by blast
qed

subsection \<open>Independence of the columns\<close>

lemma column_map_map:
  "\<forall>row\<in>set M. j < length row \<Longrightarrow> column j (map (map h) M) = map h (column j M)"
  by (induction M) (simp_all add: column_def)

lemma column_block:
  "j < n \<Longrightarrow> column j (map (\<lambda>i. map (f i) [0..<n]) xs) = map (\<lambda>i. f i j) xs"
  by (simp add: column_def)

lemma column_cumsum_from:
  assumes "j < n" and "length acc = n" and "length acc' = n"
    and "\<forall>row\<in>set M. length row = n" and "\<forall>row\<in>set M'. length row = n"
    and "acc ! j = acc' ! j" and "column j M = column j M'"
  shows "column j (cumsum_from acc M) = column j (cumsum_from acc' M')"
  using assms(2-)
proof (induction M arbitrary: M' acc acc')
  case Nil
  then show ?case by (simp add: column_def)
next
  case (Cons a M)
  from Cons.prems(6) obtain a' M'' where M': "M' = a' # M''"
    by (cases M') (simp_all add: column_def)
  from Cons.prems M' have la: "length a = n" and la': "length a' = n"
    and rows: "\<forall>row\<in>set M. length row = n" and rows': "\<forall>row\<in>set M''. length row = n"
    and aj: "a ! j = a' ! j" and cols: "column j M = column j M''"
    by (simp_all add: column_def)
  have l2: "length (map2 np_add acc a) = n" and l2': "length (map2 np_add acc' a') = n"
    using Cons.prems(1,2) la la' by simp_all
  have "map2 np_add acc a ! j = np_add (acc ! j) (a ! j)"
    using assms(1) Cons.prems(1) la by simp
  moreover have "map2 np_add acc' a' ! j = np_add (acc' ! j) (a' ! j)"
    using assms(1) Cons.prems(2) la' by simp
  ultimately have hd: "map2 np_add acc a ! j = map2 np_add acc' a' ! j"
    using Cons.prems(5) aj by simp
  have "column j (cumsum_from (map2 np_add acc a) M) = column j (cumsum_from (map2 np_add acc' a') M'')"
    using l2 l2' rows rows' hd cols by (rule Cons.IH)
  with hd show ?case
    by (simp add: M' Let_def column_def)
qed

lemma column_cumsum:
  assumes "j < n" and "\<forall>row\<in>set M. length row = n" and "\<forall>row\<in>set M'. length row = n"
    and "column j M = column j M'"
  shows "column j (cumsum M) = column j (cumsum M')"
proof (cases M)
  case Nil
  with assms(4) have "M' = []" by (simp add: column_def)
  with Nil show ?thesis by simp
next
  case (Cons a M1)
  with assms(4) obtain a' M1' where M': "M' = a' # M1'"
    by (cases M') (simp_all add: column_def)
  from assms Cons M' have la: "length a = n" and la': "length a' = n"
    and rows: "\<forall>row\<in>set M1. length row = n" and rows': "\<forall>row\<in>set M1'. length row = n"
    and aj: "a ! j = a' ! j" and cols: "column j M1 = column j M1'"
    by (simp_all add: column_def)
  have "column j (cumsum_from a M1) = column j (cumsum_from a' M1')"
    using assms(1) la la' rows rows' aj cols by (rule column_cumsum_from)
  with aj show ?thesis
    by (simp add: Cons M' column_def)
qed

lemma rows_gt: "\<forall>row\<in>set M. length row = n \<Longrightarrow> j < n \<Longrightarrow> \<forall>row\<in>set M. j < length row"
  by simp

text \<open>
  C8. For fixed parameters, column \<open>j\<close> of the result is determined by column \<open>j\<close> of the
  draws: if two sources agree on the draws \<open>z[i][j]\<close> (draw number \<open>i * N + j\<close>) for all
  \<open>i < steps\<close>, the two results have the same column \<open>j\<close>.
\<close>

theorem geo_paths_columns_independent:
  assumes j: "j < nat N" and agree: "\<forall>i<nat steps. g (i * nat N + j) = g' (i * nat N + j)"
  shows "map_sum id (column j \<circ> fst) (geo_paths S T r q sigma steps N g)
       = map_sum id (column j \<circ> fst) (geo_paths S T r q sigma steps N g')"
proof -
  consider "steps = 0" | "steps \<noteq> 0" "steps < 0 \<or> N < 0" | "0 < steps" "0 \<le> N"
    by linarith
  then show ?thesis
  proof cases
    case 1
    then show ?thesis by (simp only: geo_paths_steps_zero)
  next
    case 2
    then show ?thesis
      using geo_paths_negative_dim[of steps N S T r q sigma g]
        geo_paths_negative_dim[of steps N S T r q sigma g']
      by simp
  next
    case 3
    let ?z = "\<lambda>g. map (\<lambda>i. map (\<lambda>j. Fin (g (i * nat N + j))) [0..<nat N]) [0..<nat steps]"
    let ?h = "\<lambda>x. np_add (Fin ((r - q - sigma\<^sup>2 / 2) * (T / real_of_int steps)))
              (np_multiply (np_multiply (Fin sigma) (np_sqrt (Fin (T / real_of_int steps)))) x)"
    let ?c = "np_add (np_log (Fin S))"
    let ?P = "\<lambda>g. map (map np_exp) (map (map ?c) (cumsum (map (map ?h) (?z g))))"
    have rz: "\<forall>row\<in>set (?z g). length row = nat N" for g :: rng
      by (rule block_rows)
    have rh: "\<forall>row\<in>set (map (map ?h) (?z g)). length row = nat N" for g :: rng
      using rz by (rule map_map_rows)
    have rc: "\<forall>row\<in>set (cumsum (map (map ?h) (?z g))). length row = nat N" for g :: rng
      using rh by (rule cumsum_rows)
    have rl: "\<forall>row\<in>set (map (map ?c) (cumsum (map (map ?h) (?z g)))). length row = nat N" for g :: rng
      using rc by (rule map_map_rows)
    have colz: "column j (?z g) = map (\<lambda>i. Fin (g (i * nat N + j))) [0..<nat steps]" for g :: rng
      using j by (rule column_block)
    have "map (\<lambda>i. Fin (g (i * nat N + j))) [0..<nat steps]
        = map (\<lambda>i. Fin (g' (i * nat N + j))) [0..<nat steps]"
      using agree by (intro map_cong[OF refl]) simp
    then have "column j (?z g) = column j (?z g')"
      by (simp only: colz)
    then have "column j (map (map ?h) (?z g)) = column j (map (map ?h) (?z g'))"
      by (simp only: column_map_map[OF rows_gt[OF rz j]])
    with j rh rh have "column j (cumsum (map (map ?h) (?z g))) = column j (cumsum (map (map ?h) (?z g')))"
      by (rule column_cumsum)
    then have "column j (map (map ?c) (cumsum (map (map ?h) (?z g))))
        = column j (map (map ?c) (cumsum (map (map ?h) (?z g'))))"
      by (simp only: column_map_map[OF rows_gt[OF rc j]])
    then have "column j (?P g) = column j (?P g')"
      by (simp only: column_map_map[OF rows_gt[OF rl j]])
    then show ?thesis
      by (simp only: geo_paths_unfold[OF 3] map_sum.simps fst_conv comp_apply)
  qed
qed

theorem geo_paths_columns_independent_witness:
  "0 < nat 2 \<and> zero_draws (0 * nat 2 + 0) = spike_draws (0 * nat 2 + 0) \<and>
   map_sum id (column 0 \<circ> fst) (geo_paths 100 1 (1/20) 0 (1/5) 1 2 zero_draws)
     = map_sum id (column 0 \<circ> fst) (geo_paths 100 1 (1/20) 0 (1/5) 1 2 spike_draws)"
proof -
  have h1: "0 < nat 2" by simp
  have h0: "zero_draws (0 * nat 2 + 0) = spike_draws (0 * nat 2 + 0)"
    by (simp add: zero_draws_def spike_draws_def)
  then have h2: "\<forall>i<nat 1. zero_draws (i * nat 2 + 0) = spike_draws (i * nat 2 + 0)"
    by simp
  from h1 h0 geo_paths_columns_independent[OF h1 h2, of 100 1 "1/20" 0 "1/5"] show ?thesis by blast
qed

subsection \<open>Terminal statistics\<close>

text \<open>
  C6 as stated fails: on an ensemble with \<open>N = 0\<close> the reduction raises nothing; it
  returns \<open>nan\<close> for both statistics.
\<close>

theorem summarize_empty_row_is_nan: "summarize [[]] = Inr (NaN, NaN)"
  by (simp add: summarize_def mean_def std_def np_sum_def)

text \<open>
  C6, as the code has it. There is no \<open>EmptyEnsemble\<close> guard: on every ensemble with at
  least one row and \<open>N = 0\<close> columns, mean and standard deviation are both \<open>nan\<close>
  (\<open>0.0 / 0\<close>), and no error is raised.
\<close>

theorem summarize_no_guard:
  assumes "paths \<noteq> []" and "last paths = []"
  shows "summarize paths = Inr (NaN, NaN)"
  using assms by (simp add: summarize_def mean_def std_def np_sum_def)

theorem summarize_no_guard_witness:
  "[[Fin 1], []] \<noteq> [] \<and> last [[Fin 1], []] = [] \<and> summarize [[Fin 1], []] = Inr (NaN, NaN)"
proof -
  have h1: "[[Fin 1], []] \<noteq> []" and h2: "last [[Fin 1], []] = []"
    by simp_all
  from h1 h2 summarize_no_guard[OF h1 h2] show ?thesis by blast
qed

text \<open>
  C7. On a single-path ensemble (\<open>N = 1\<close>) with terminal price \<open>x\<close>, the reduction returns
  mean \<open>x\<close> and standard deviation exactly \<open>0\<close>.
\<close>

theorem summarize_single_path:
  assumes "paths \<noteq> []" and "last paths = [Fin x]"
  shows "summarize paths = Inr (Fin x, Fin 0)"
  using assms by (simp add: summarize_def mean_def std_def np_sum_def np_subtract_def)

theorem summarize_single_path_witness:
  "[[Fin 7]] \<noteq> [] \<and> last [[Fin 7]] = [Fin 7] \<and> summarize [[Fin 7]] = Inr (Fin 7, Fin 0)"
proof -
  have h1: "[[Fin 7]] \<noteq> []" and h2: "last [[Fin 7]] = [Fin 7]"
    by simp_all
  from h1 h2 summarize_single_path[OF h1 h2] show ?thesis by blast
qed

subsection \<open>The call site fixes the yield\<close>

text \<open>
  C10. The page calls \<open>geo_paths\<close> with the literal \<open>q = 0\<close> and \<open>steps = 100\<close>; the yield is
  not an input of the page. Every per-step log-drift of the ensemble it shows is therefore
  \<open>(r - sigma\<^sup>2/2) * (T/100)\<close>.
\<close>

theorem page_paths_zero_yield:
  assumes "0 < S0" and "0 < T" and "1 \<le> N"
  shows "\<exists>path g'. page_paths S0 T r sigma N g = Inr (path, g')
          \<and> length path = 100
          \<and> (\<forall>i<100. length (path ! i) = nat N)
          \<and> (\<forall>i<100. \<forall>j<nat N.
                path ! i ! j =
                  Fin (S0 * exp (\<Sum>k\<le>i. (r - sigma\<^sup>2 / 2) * (T / 100)
                                   + sigma * sqrt (T / 100) * g (k * nat N + j))))"
proof -
  have "geo_paths S0 T r 0 sigma 100 N g =
     Inr (map (\<lambda>i. map (\<lambda>j. Fin (S0 * exp (\<Sum>k\<le>i.
                 (r - 0 - sigma\<^sup>2 / 2) * (T / real_of_int 100)
                 + sigma * sqrt (T / real_of_int 100) * g (k * nat N + j))))
               [0..<nat N]) [0..<nat 100],
          (\<lambda>k. g (k + nat 100 * nat N)))"
    using assms by (intro geo_paths_closed_form) simp_all
  then show ?thesis
    by (simp add: page_paths_def steps_fixed_def)
qed

theorem page_paths_zero_yield_witness:
  "(0::real) < 100 \<and> (0::real) < 1 \<and> (1::int) \<le> 10 \<and>
   (\<exists>path g'. page_paths 100 1 (1/20) (1/5) 10 zero_draws = Inr (path, g')
          \<and> length path = 100
          \<and> (\<forall>i<100. length (path ! i) = nat 10)
          \<and> (\<forall>i<100. \<forall>j<nat 10.
                path ! i ! j =
                  Fin (100 * exp (\<Sum>k\<le>i. (1/20 - (1/5)\<^sup>2 / 2) * (1 / 100)
                                   + (1/5) * sqrt (1 / 100) * zero_draws (k * nat 10 + j)))))"
proof -
  have h1: "(0::real) < 100" and h2: "(0::real) < 1" and h3: "(1::int) \<le> 10"
    by simp_all
  from h1 h2 h3 page_paths_zero_yield[OF h1 h2 h3, of "1/20" "1/5" zero_draws]
  show ?thesis by blast
qed

section \<open>Properties at the limits of float64\<close>

subsection \<open>Range\<close>

lemma float_ovf_gt: "2 ^ 1023 < float_ovf"
proof -
  have "(2::real) ^ 970 < 2 ^ 1023"
    by (rule power_strict_increasing) simp_all
  moreover have "(2::real) ^ (1023 + 1) = 2 ^ 1023 * 2 ^ 1"
    by (rule power_add)
  moreover have "(1023::nat) + 1 = 1024"
    by simp
  ultimately have "(2::real) ^ 970 < 2 ^ 1023" and "(2::real) ^ 1024 = 2 ^ 1023 * 2"
    by (simp_all only: power_one_right)
  then show ?thesis
    unfolding float_ovf_def by linarith
qed


lemma float_udf_pos: "0 < float_udf"
  unfolding float_udf_def by (intro divide_pos_pos zero_less_power) simp_all

lemma float_udf_lt: "float_udf < 1 / 2 ^ 1074"
proof -
  have "(2::real) ^ 1074 < 2 ^ 1075"
    by (rule power_strict_increasing) simp_all
  moreover have "(0::real) < 2 ^ 1074" by (rule zero_less_power) simp
  ultimately show ?thesis
    unfolding float_udf_def by (intro divide_strict_left_mono mult_pos_pos) simp_all
qed

lemma fl_ovf_Fin: "\<bar>x\<bar> < float_ovf \<Longrightarrow> fl_ovf x = Fin x"
  by (auto simp: fl_ovf_def)

lemma fl_Fin: "in_range x \<Longrightarrow> fl x = Fin x"
  by (auto simp: fl_def in_range_def fl_ovf_Fin)

lemma in_range_no_ovf: "in_range x \<Longrightarrow> \<bar>x\<bar> < float_ovf"
  by (simp add: in_range_def)

lemma in_range_0: "in_range 0"
  using float_ovf_gt by (simp add: in_range_def)

lemma in_range_between: "1 / 2 ^ 1074 \<le> \<bar>x\<bar> \<Longrightarrow> \<bar>x\<bar> \<le> 2 ^ 1023 \<Longrightarrow> in_range x"
  using float_ovf_gt float_udf_lt by (simp add: in_range_def)


lemma exp_le_three_power: "exp (real n) \<le> 3 ^ n"
proof -
  have "exp 1 ^ n \<le> (3::real) ^ n"
    using exp_le by (intro power_mono) simp_all
  then show ?thesis
    by (simp add: exp_of_nat_mult [symmetric])
qed



lemma exp_in_range: "\<bar>x\<bar> \<le> 600 \<Longrightarrow> in_range (exp x)"
proof -
  assume x: "\<bar>x\<bar> \<le> 600"
  have p: "(3::real) ^ 600 \<le> 2 ^ 1023"
  proof -
    have "((3::real) ^ 5) ^ 120 \<le> (2 ^ 8) ^ 120"
      by (rule power_mono) simp_all
    moreover have "(5::nat) * 120 = 600" and "(8::nat) * 120 = 960"
      by simp_all
    ultimately have "(3::real) ^ 600 \<le> 2 ^ 960"
      by (simp only: power_mult [symmetric])
    moreover have "(2::real) ^ 960 \<le> 2 ^ 1023"
      by (rule power_increasing) simp_all
    ultimately show ?thesis by (rule order_trans)
  qed
  have up: "exp x \<le> 2 ^ 1023"
  proof -
    from x have "exp x \<le> exp (real 600)" by simp
    also note exp_le_three_power[of 600]
    also note p
    finally show ?thesis .
  qed
  have lo: "1 / 2 ^ 1074 \<le> exp x"
  proof -
    have "(2::real) ^ 1023 \<le> 2 ^ 1074" by (rule power_increasing) simp_all
    with p have "(3::real) ^ 600 \<le> 2 ^ 1074" by (rule order_trans)
    with exp_le_three_power[of 600] have "exp (real 600) \<le> 2 ^ 1074" by (rule order_trans)
    then have "1 / (2::real) ^ 1074 \<le> 1 / exp (real 600)"
      by (intro divide_left_mono mult_pos_pos zero_less_power exp_gt_zero) simp_all
    also have "1 / exp (real 600) = exp (- real 600)"
      by (simp only: exp_minus inverse_eq_divide)
    also from x have "exp (- real 600) \<le> exp x" by simp
    finally show ?thesis .
  qed
  have "\<bar>exp x\<bar> = exp x" by simp
  with up lo have "1 / 2 ^ 1074 \<le> \<bar>exp x\<bar>" and "\<bar>exp x\<bar> \<le> 2 ^ 1023"
    by (simp_all only:)
  then show ?thesis by (rule in_range_between)
qed

subsection \<open>The closed form of a run that stays in range\<close>

lemma cumsum_from_f64_Fin:
  assumes "\<forall>i\<in>set [s..<s + m]. \<forall>j\<in>set [0..<n]. in_range (a j + (\<Sum>k = s..i. f k j))"
  shows "cumsum_from_f64 (map (\<lambda>j. Fin (a j)) [0..<n])
       (map (\<lambda>i. map (\<lambda>j. Fin (f i j)) [0..<n]) [s..<s + m])
   = map (\<lambda>i. map (\<lambda>j. Fin (a j + (\<Sum>k = s..i. f k j))) [0..<n]) [s..<s + m]"
  using assms
proof (induction m arbitrary: s a)
  case 0
  then show ?case by simp
next
  case (Suc m)
  have split: "[s..<s + Suc m] = s # [Suc s..<Suc s + m]"
    by (simp add: upt_conv_Cons)
  have step: "map2 f64_add (map (\<lambda>j. Fin (a j)) [0..<n]) (map (\<lambda>j. Fin (f s j)) [0..<n])
        = map (\<lambda>j. Fin (a j + f s j)) [0..<n]"
  proof -
    have "map (\<lambda>j. fl_ovf (a j + f s j)) [0..<n] = map (\<lambda>j. Fin (a j + f s j)) [0..<n]"
    proof (rule map_cong[OF refl])
      fix j assume j: "j \<in> set [0..<n]"
      have "s \<in> set [s..<s + Suc m]" by (simp del: upt_Suc)
      with Suc.prems j have "in_range (a j + (\<Sum>k = s..s. f k j))" by blast
      then have "in_range (a j + f s j)" by simp
      then show "fl_ovf (a j + f s j) = Fin (a j + f s j)"
        by (intro fl_ovf_Fin in_range_no_ovf)
    qed
    then show ?thesis by (simp add: map2_same)
  qed
  have pt: "a j + f s j + (\<Sum>k = Suc s..i. f k j) = a j + (\<Sum>k = s..i. f k j)"
    if "i \<in> set [Suc s..<Suc s + m]" for i j
  proof -
    from that have "s \<le> i" by auto
    then show ?thesis by (simp add: sum.atLeast_Suc_atMost)
  qed
  have tail: "map (\<lambda>i. map (\<lambda>j. Fin (a j + f s j + (\<Sum>k = Suc s..i. f k j))) [0..<n]) [Suc s..<Suc s + m]
      = map (\<lambda>i. map (\<lambda>j. Fin (a j + (\<Sum>k = s..i. f k j))) [0..<n]) [Suc s..<Suc s + m]"
    by (rule map_cong[OF refl]) (simp only: pt)
  have prem: "\<forall>i\<in>set [Suc s..<Suc s + m]. \<forall>j\<in>set [0..<n].
       in_range (a j + f s j + (\<Sum>k = Suc s..i. f k j))"
  proof (intro ballI)
    fix i j assume i: "i \<in> set [Suc s..<Suc s + m]" and j: "j \<in> set [0..<n]"
    from i have "i \<in> set [s..<s + Suc m]" by auto
    with Suc.prems j have "in_range (a j + (\<Sum>k = s..i. f k j))" by blast
    then show "in_range (a j + f s j + (\<Sum>k = Suc s..i. f k j))"
      by (simp only: pt[OF i])
  qed
  have "cumsum_from_f64 (map (\<lambda>j. Fin (a j)) [0..<n])
       (map (\<lambda>i. map (\<lambda>j. Fin (f i j)) [0..<n]) (s # [Suc s..<Suc s + m]))
     = map (\<lambda>j. Fin (a j + f s j)) [0..<n]
       # map (\<lambda>i. map (\<lambda>j. Fin (a j + f s j + (\<Sum>k = Suc s..i. f k j))) [0..<n]) [Suc s..<Suc s + m]"
    by (simp only: list.map cumsum_from_f64.simps Let_def step
        Suc.IH[of "Suc s" "\<lambda>j. a j + f s j", OF prem])
  also have "\<dots> = map (\<lambda>i. map (\<lambda>j. Fin (a j + (\<Sum>k = s..i. f k j))) [0..<n]) (s # [Suc s..<Suc s + m])"
    by (simp only: tail list.map) simp
  finally show ?case
    by (simp only: split)
qed

lemma cumsum_f64_Fin:
  assumes "\<forall>i\<in>set [0..<m]. \<forall>j\<in>set [0..<n]. in_range (\<Sum>k\<le>i. f k j)"
  shows "cumsum_f64 (map (\<lambda>i. map (\<lambda>j. Fin (f i j)) [0..<n]) [0..<m])
   = map (\<lambda>i. map (\<lambda>j. Fin (\<Sum>k\<le>i. f k j)) [0..<n]) [0..<m]"
proof (cases m)
  case 0
  then show ?thesis by simp
next
  case (Suc m')
  have split: "[0..<Suc m'] = 0 # [Suc 0..<Suc 0 + m']"
    by (simp add: upt_conv_Cons)
  have pt: "f 0 j + (\<Sum>k = Suc 0..i. f k j) = (\<Sum>k\<le>i. f k j)" for i j
    by (simp add: atMost_atLeast0 sum.atLeast_Suc_atMost)
  have tail: "map (\<lambda>i. map (\<lambda>j. Fin (f 0 j + (\<Sum>k = Suc 0..i. f k j))) [0..<n]) [Suc 0..<Suc 0 + m']
      = map (\<lambda>i. map (\<lambda>j. Fin (\<Sum>k\<le>i. f k j)) [0..<n]) [Suc 0..<Suc 0 + m']"
    by (simp only: pt)
  have prem: "\<forall>i\<in>set [Suc 0..<Suc 0 + m']. \<forall>j\<in>set [0..<n].
       in_range (f 0 j + (\<Sum>k = Suc 0..i. f k j))"
  proof (intro ballI)
    fix i j assume i: "i \<in> set [Suc 0..<Suc 0 + m']" and j: "j \<in> set [0..<n]"
    from i Suc have "i \<in> set [0..<m]" by auto
    with assms j have "in_range (\<Sum>k\<le>i. f k j)" by blast
    then show "in_range (f 0 j + (\<Sum>k = Suc 0..i. f k j))"
      by (simp only: pt)
  qed
  have "cumsum_f64 (map (\<lambda>i. map (\<lambda>j. Fin (f i j)) [0..<n]) (0 # [Suc 0..<Suc 0 + m']))
      = map (\<lambda>j. Fin (f 0 j)) [0..<n]
        # map (\<lambda>i. map (\<lambda>j. Fin (f 0 j + (\<Sum>k = Suc 0..i. f k j))) [0..<n]) [Suc 0..<Suc 0 + m']"
    by (simp only: list.map cumsum_f64.simps cumsum_from_f64_Fin[of "Suc 0" m' n "f 0" f, OF prem])
  also have "\<dots> = map (\<lambda>i. map (\<lambda>j. Fin (\<Sum>k\<le>i. f k j)) [0..<n]) (0 # [Suc 0..<Suc 0 + m'])"
    by (simp only: tail list.map) simp
  finally show ?thesis
    by (simp only: Suc split)
qed

lemma map_map_cong2:
  assumes "\<And>i j. i \<in> set xs \<Longrightarrow> j \<in> set ys \<Longrightarrow> F i j = G i j"
  shows "map (\<lambda>i. map (\<lambda>j. F i j) ys) xs = map (\<lambda>i. map (\<lambda>j. G i j) ys) xs"
proof (rule map_cong[OF refl])
  fix i assume "i \<in> set xs"
  then show "map (\<lambda>j. F i j) ys = map (\<lambda>j. G i j) ys"
    by (intro map_cong[OF refl] assms)
qed

lemma intp_no_ovf: "0 \<le> steps \<Longrightarrow> steps \<le> intp_max \<Longrightarrow> \<not> float_ovf \<le> \<bar>real_of_int steps\<bar>"
proof -
  assume s: "0 \<le> steps" "steps \<le> intp_max"
  then have "real_of_int steps \<le> real_of_int (2 ^ 63)"
    unfolding intp_max_def by (intro of_int_le_iff[THEN iffD2]) simp
  then have "\<bar>real_of_int steps\<bar> \<le> 2 ^ 63" using s by simp
  moreover have "(2::real) ^ 63 \<le> 2 ^ 1023" by (rule power_increasing) simp_all
  ultimately show ?thesis using float_ovf_gt by linarith
qed

lemma random_normal_f64_ok:
  assumes "0 \<le> steps" and "0 \<le> N" and "steps \<le> intp_max" and "N \<le> intp_max"
    and "8 * (if steps = 0 then 1 else steps) * (if N = 0 then 1 else N) \<le> intp_max"
    and "alloc (8 * nat steps * nat N)"
  shows "random_normal_f64 alloc steps N g =
     Inr (map (\<lambda>i. map (\<lambda>j. Fin (g (i * nat N + j))) [0..<nat N]) [0..<nat steps],
          (\<lambda>k. g (k + nat steps * nat N)))"
  using assms unfolding random_normal_f64_def by (simp add: not_less)

lemma geo_paths_f64_unfold:
  assumes "1 \<le> steps" and "0 \<le> N" and "steps \<le> intp_max" and "N \<le> intp_max"
    and "8 * steps * (if N = 0 then 1 else N) \<le> intp_max"
    and "alloc (8 * nat steps * nat N)" and "\<not> float_ovf \<le> sigma\<^sup>2"
  shows "geo_paths_f64 alloc S T r q sigma steps N g =
     Inr (map (map f64_exp) (map (map (f64_add (f64_log (Fin S))))
            (cumsum_f64 (map (map (\<lambda>x. f64_add
                (f64_multiply
                   (f64_subtract (f64_subtract (Fin r) (Fin q)) (f64_true_divide (fl (sigma\<^sup>2)) 2))
                   (fl (T / real_of_int steps)))
                (f64_multiply (f64_multiply (Fin sigma) (f64_sqrt (fl (T / real_of_int steps)))) x)))
              (map (\<lambda>i. map (\<lambda>j. Fin (g (i * nat N + j))) [0..<nat N]) [0..<nat steps])))),
          (\<lambda>k. g (k + nat steps * nat N)))"
proof -
  from assms(1) have s0: "0 \<le> steps" and s1: "steps \<noteq> 0" by simp_all
  from assms(5) s1 have "8 * (if steps = 0 then 1 else steps) * (if N = 0 then 1 else N) \<le> intp_max"
    by simp
  with s0 assms have rn: "random_normal_f64 alloc steps N g =
      Inr (map (\<lambda>i. map (\<lambda>j. Fin (g (i * nat N + j))) [0..<nat N]) [0..<nat steps],
           (\<lambda>k. g (k + nat steps * nat N)))"
    by (intro random_normal_f64_ok)
  have c1: "\<not> float_ovf \<le> \<bar>real_of_int steps\<bar>"
    using s0 assms(3) by (rule intp_no_ovf)
  show ?thesis
    unfolding geo_paths_f64_def
    by (simp only: c1 s1 assms(7) if_False Let_def rn sum.case prod.case)
qed

lemma geo_paths_f64_closed_form:
  assumes S: "0 < S" and T: "0 \<le> T" and steps: "1 \<le> steps" and N: "0 \<le> N"
    and dims: "steps \<le> intp_max" "N \<le> intp_max" "8 * steps * (if N = 0 then 1 else N) \<le> intp_max"
    and alloc: "alloc (8 * nat steps * nat N)"
    and range: "stays_in_range S T r q sigma steps N g"
  shows "geo_paths_f64 alloc S T r q sigma steps N g =
     Inr (map (\<lambda>i. map (\<lambda>j. Fin (S * exp (\<Sum>k\<le>i.
                 (r - q - sigma\<^sup>2 / 2) * (T / real_of_int steps)
                 + sigma * sqrt (T / real_of_int steps) * g (k * nat N + j))))
               [0..<nat N]) [0..<nat steps],
          (\<lambda>k. g (k + nat steps * nat N)))"
proof -
  let ?dt = "T / real_of_int steps"
  let ?d = "(r - q - sigma\<^sup>2 / 2) * ?dt"
  let ?v = "sigma * sqrt ?dt"
  let ?inc = "\<lambda>k j. ?d + ?v * g (k * nat N + j)"
  let ?z = "map (\<lambda>i. map (\<lambda>j. Fin (g (i * nat N + j))) [0..<nat N]) [0..<nat steps]"
  from range have r_dt: "in_range ?dt" and r_rq: "in_range (r - q)" and r_s2: "in_range (sigma\<^sup>2)"
    and r_h: "in_range (sigma\<^sup>2 / 2)" and r_c: "in_range (r - q - sigma\<^sup>2 / 2)"
    and r_d: "in_range ?d" and r_sq: "in_range (sqrt ?dt)" and r_v: "in_range ?v"
    and r_l: "in_range (ln S)"
    and cells: "\<forall>i<nat steps. \<forall>j<nat N.
               in_range (?v * g (i * nat N + j))
             \<and> in_range (?inc i j)
             \<and> in_range (\<Sum>k\<le>i. ?inc k j)
             \<and> in_range (ln S + (\<Sum>k\<le>i. ?inc k j))
             \<and> \<bar>ln S + (\<Sum>k\<le>i. ?inc k j)\<bar> \<le> 600"
    unfolding stays_in_range_def Let_def by simp_all
  have dt0: "\<not> ?dt < 0"
    using T steps by (simp add: not_less)
  have no_ovf: "\<not> float_ovf \<le> sigma\<^sup>2"
    using in_range_no_ovf[OF r_s2] by simp
  have dt: "fl ?dt = Fin ?dt"
    using r_dt by (rule fl_Fin)
  have drift: "f64_multiply
                 (f64_subtract (f64_subtract (Fin r) (Fin q)) (f64_true_divide (fl (sigma\<^sup>2)) 2))
                 (Fin ?dt) = Fin ?d"
  proof -
    have "f64_subtract (Fin r) (Fin q) = Fin (r - q)"
      using fl_ovf_Fin[OF in_range_no_ovf[OF r_rq]] by (simp add: f64_subtract_def)
    moreover have "f64_true_divide (fl (sigma\<^sup>2)) 2 = Fin (sigma\<^sup>2 / 2)"
      using fl_Fin[OF r_s2] fl_Fin[OF r_h] by simp
    moreover have "f64_subtract (Fin (r - q)) (Fin (sigma\<^sup>2 / 2)) = Fin (r - q - sigma\<^sup>2 / 2)"
      using fl_ovf_Fin[OF in_range_no_ovf[OF r_c]] by (simp add: f64_subtract_def)
    moreover have "f64_multiply (Fin (r - q - sigma\<^sup>2 / 2)) (Fin ?dt) = Fin ?d"
      using fl_Fin[OF r_d] by simp
    ultimately show ?thesis by (simp only:)
  qed
  have vol: "f64_multiply (Fin sigma) (f64_sqrt (Fin ?dt)) = Fin ?v"
  proof -
    have "f64_sqrt (Fin ?dt) = Fin (sqrt ?dt)"
      using dt0 fl_Fin[OF r_sq] by simp
    moreover have "f64_multiply (Fin sigma) (Fin (sqrt ?dt)) = Fin ?v"
      using fl_Fin[OF r_v] by simp
    ultimately show ?thesis by (simp only:)
  qed
  have incs: "map (map (\<lambda>x. f64_add (Fin ?d) (f64_multiply (Fin ?v) x))) ?z
      = map (\<lambda>i. map (\<lambda>j. Fin (?inc i j)) [0..<nat N]) [0..<nat steps]"
  proof -
    have "f64_add (Fin ?d) (f64_multiply (Fin ?v) (Fin (g (i * nat N + j)))) = Fin (?inc i j)"
      if "i \<in> set [0..<nat steps]" and "j \<in> set [0..<nat N]" for i j
    proof -
      from that have "i < nat steps" "j < nat N" by simp_all
      with cells have a: "in_range (?v * g (i * nat N + j))" and b: "in_range (?inc i j)"
        by blast+
      have "f64_multiply (Fin ?v) (Fin (g (i * nat N + j))) = Fin (?v * g (i * nat N + j))"
        using fl_Fin[OF a] by simp
      moreover have "f64_add (Fin ?d) (Fin (?v * g (i * nat N + j))) = Fin (?inc i j)"
        using fl_ovf_Fin[OF in_range_no_ovf[OF b]] by simp
      ultimately show ?thesis by (simp only:)
    qed
    then have "map (\<lambda>i. map (\<lambda>j. f64_add (Fin ?d) (f64_multiply (Fin ?v) (Fin (g (i * nat N + j))))) [0..<nat N]) [0..<nat steps]
        = map (\<lambda>i. map (\<lambda>j. Fin (?inc i j)) [0..<nat N]) [0..<nat steps]"
      by (rule map_map_cong2)
    then show ?thesis by (simp only: map_map o_def)
  qed
  have sums: "cumsum_f64 (map (\<lambda>i. map (\<lambda>j. Fin (?inc i j)) [0..<nat N]) [0..<nat steps])
      = map (\<lambda>i. map (\<lambda>j. Fin (\<Sum>k\<le>i. ?inc k j)) [0..<nat N]) [0..<nat steps]"
    using cells by (intro cumsum_f64_Fin) simp
  have logS: "f64_log (Fin S) = Fin (ln S)"
    using S fl_Fin[OF r_l] by simp
  have fin: "map (map f64_exp) (map (map (f64_add (Fin (ln S))))
        (map (\<lambda>i. map (\<lambda>j. Fin (\<Sum>k\<le>i. ?inc k j)) [0..<nat N]) [0..<nat steps]))
      = map (\<lambda>i. map (\<lambda>j. Fin (S * exp (\<Sum>k\<le>i. ?inc k j))) [0..<nat N]) [0..<nat steps]"
  proof -
    have "f64_exp (f64_add (Fin (ln S)) (Fin (\<Sum>k\<le>i. ?inc k j))) = Fin (S * exp (\<Sum>k\<le>i. ?inc k j))"
      if "i \<in> set [0..<nat steps]" and "j \<in> set [0..<nat N]" for i j
    proof -
      from that have "i < nat steps" "j < nat N" by simp_all
      with cells have a: "in_range (ln S + (\<Sum>k\<le>i. ?inc k j))"
        and b: "\<bar>ln S + (\<Sum>k\<le>i. ?inc k j)\<bar> \<le> 600"
        by blast+
      have "f64_add (Fin (ln S)) (Fin (\<Sum>k\<le>i. ?inc k j)) = Fin (ln S + (\<Sum>k\<le>i. ?inc k j))"
        using fl_ovf_Fin[OF in_range_no_ovf[OF a]] by simp
      moreover have "f64_exp (Fin (ln S + (\<Sum>k\<le>i. ?inc k j))) = Fin (exp (ln S + (\<Sum>k\<le>i. ?inc k j)))"
        using fl_Fin[OF exp_in_range[OF b]] by simp
      moreover have "exp (ln S + (\<Sum>k\<le>i. ?inc k j)) = S * exp (\<Sum>k\<le>i. ?inc k j)"
        using S by (simp add: exp_add)
      ultimately show ?thesis by (simp only:)
    qed
    then have "map (\<lambda>i. map (\<lambda>j. f64_exp (f64_add (Fin (ln S)) (Fin (\<Sum>k\<le>i. ?inc k j)))) [0..<nat N]) [0..<nat steps]
        = map (\<lambda>i. map (\<lambda>j. Fin (S * exp (\<Sum>k\<le>i. ?inc k j))) [0..<nat N]) [0..<nat steps]"
      by (rule map_map_cong2)
    then show ?thesis by (simp only: map_map o_def)
  qed
  have "geo_paths_f64 alloc S T r q sigma steps N g =
     Inr (map (map f64_exp) (map (map (f64_add (f64_log (Fin S))))
            (cumsum_f64 (map (map (\<lambda>x. f64_add
                (f64_multiply
                   (f64_subtract (f64_subtract (Fin r) (Fin q)) (f64_true_divide (fl (sigma\<^sup>2)) 2))
                   (fl ?dt))
                (f64_multiply (f64_multiply (Fin sigma) (f64_sqrt (fl ?dt))) x))) ?z))),
          (\<lambda>k. g (k + nat steps * nat N)))"
    using steps N dims alloc no_ovf by (rule geo_paths_f64_unfold)
  also have "\<dots> = Inr (map (\<lambda>i. map (\<lambda>j. Fin (S * exp (\<Sum>k\<le>i. ?inc k j))) [0..<nat N]) [0..<nat steps],
          (\<lambda>k. g (k + nat steps * nat N)))"
    by (simp only: dt drift vol incs sums logS fin)
  finally show ?thesis .
qed

subsection \<open>Failure modes and shape\<close>

lemma length_cumsum_from_f64: "length (cumsum_from_f64 acc M) = length M"
  by (induction M arbitrary: acc) (simp_all add: Let_def)

lemma length_cumsum_f64: "length (cumsum_f64 M) = length M"
  by (cases M) (simp_all add: length_cumsum_from_f64)

lemma cumsum_from_f64_rows:
  "length acc = n \<Longrightarrow> \<forall>row\<in>set M. length row = n \<Longrightarrow>
   \<forall>row\<in>set (cumsum_from_f64 acc M). length row = n"
proof (induction M arbitrary: acc)
  case Nil
  then show ?case by simp
next
  case (Cons a M)
  from Cons.prems have "length (map2 f64_add acc a) = n" by simp
  moreover from Cons.prems have "\<forall>row\<in>set M. length row = n" by simp
  ultimately have "\<forall>row\<in>set (cumsum_from_f64 (map2 f64_add acc a) M). length row = n"
    by (rule Cons.IH)
  with Cons.prems show ?case by (simp add: Let_def)
qed

lemma cumsum_f64_rows:
  assumes "\<forall>row\<in>set M. length row = n"
  shows "\<forall>row\<in>set (cumsum_f64 M). length row = n"
proof (cases M)
  case Nil
  then show ?thesis by simp
next
  case (Cons a M')
  with assms have a: "length a = n" and M': "\<forall>row\<in>set M'. length row = n"
    by simp_all
  from a M' have "\<forall>row\<in>set (cumsum_from_f64 a M'). length row = n"
    by (rule cumsum_from_f64_rows)
  with a Cons show ?thesis by simp
qed

lemma float_ovf_pos: "0 < float_ovf"
proof -
  have "(0::real) < 2 ^ 1023" by (rule zero_less_power) simp
  from this float_ovf_gt show ?thesis by (rule less_trans)
qed

lemma geo_paths_f64_steps_too_large:
  "float_ovf \<le> \<bar>real_of_int steps\<bar> \<Longrightarrow> geo_paths_f64 alloc S T r q sigma steps N g = Inl OverflowError"
  unfolding geo_paths_f64_def by (simp only: if_True)

lemma geo_paths_f64_steps_zero: "geo_paths_f64 alloc S T r q sigma 0 N g = Inl ZeroDivisionError"
proof -
  have "\<not> float_ovf \<le> \<bar>real_of_int 0\<bar>"
    using float_ovf_pos by simp
  then show ?thesis
    unfolding geo_paths_f64_def by (simp only: if_False if_True simp_thms)
qed

lemma geo_paths_f64_sigma_too_large:
  assumes "steps \<noteq> 0" and "float_ovf \<le> sigma\<^sup>2"
  shows "geo_paths_f64 alloc S T r q sigma steps N g = Inl OverflowError"
proof (cases "float_ovf \<le> \<bar>real_of_int steps\<bar>")
  case True
  then show ?thesis by (rule geo_paths_f64_steps_too_large)
next
  case False
  with assms show ?thesis
    unfolding geo_paths_f64_def by (simp only: if_False if_True)
qed

lemma geo_paths_f64_bad_dims:
  assumes "steps \<noteq> 0" and "\<not> float_ovf \<le> \<bar>real_of_int steps\<bar>" and "\<not> float_ovf \<le> sigma\<^sup>2"
    and "steps < 0 \<or> N < 0 \<or> intp_max < steps \<or> intp_max < N
           \<or> intp_max < 8 * steps * (if N = 0 then 1 else N)"
  shows "geo_paths_f64 alloc S T r q sigma steps N g = Inl ValueError"
proof -
  from assms(1,4) have "random_normal_f64 alloc steps N g = Inl ValueError"
    unfolding random_normal_f64_def by simp
  with assms(1-3) show ?thesis
    unfolding geo_paths_f64_def by (simp only: if_False Let_def sum.case)
qed

lemma geo_paths_f64_no_memory:
  assumes "steps \<noteq> 0" and "\<not> float_ovf \<le> \<bar>real_of_int steps\<bar>" and "\<not> float_ovf \<le> sigma\<^sup>2"
    and "\<not> (steps < 0 \<or> N < 0 \<or> intp_max < steps \<or> intp_max < N
           \<or> intp_max < 8 * steps * (if N = 0 then 1 else N))"
    and "\<not> alloc (8 * nat steps * nat N)"
  shows "geo_paths_f64 alloc S T r q sigma steps N g = Inl MemoryError"
proof -
  from assms(1,4,5) have "random_normal_f64 alloc steps N g = Inl MemoryError"
    unfolding random_normal_f64_def by simp
  with assms(1-3) show ?thesis
    unfolding geo_paths_f64_def by (simp only: if_False Let_def sum.case)
qed

lemma geo_paths_f64_shape:
  assumes "1 \<le> steps" and "0 \<le> N" and "steps \<le> intp_max" and "N \<le> intp_max"
    and "8 * steps * (if N = 0 then 1 else N) \<le> intp_max"
    and "alloc (8 * nat steps * nat N)" and "\<not> float_ovf \<le> sigma\<^sup>2"
  shows "\<exists>path g'. geo_paths_f64 alloc S T r q sigma steps N g = Inr (path, g')
           \<and> length path = nat steps \<and> (\<forall>row\<in>set path. length row = nat N)"
proof -
  let ?z = "map (\<lambda>i. map (\<lambda>j. Fin (g (i * nat N + j))) [0..<nat N]) [0..<nat steps]"
  let ?h = "\<lambda>x. f64_add
                (f64_multiply
                   (f64_subtract (f64_subtract (Fin r) (Fin q)) (f64_true_divide (fl (sigma\<^sup>2)) 2))
                   (fl (T / real_of_int steps)))
                (f64_multiply (f64_multiply (Fin sigma) (f64_sqrt (fl (T / real_of_int steps)))) x)"
  let ?P = "map (map f64_exp) (map (map (f64_add (f64_log (Fin S)))) (cumsum_f64 (map (map ?h) ?z)))"
  have eq: "geo_paths_f64 alloc S T r q sigma steps N g = Inr (?P, (\<lambda>k. g (k + nat steps * nat N)))"
    using assms by (rule geo_paths_f64_unfold)
  have len: "length ?P = nat steps"
    by (simp only: length_map length_cumsum_f64 length_upt minus_nat.diff_0)
  have "\<forall>row\<in>set ?z. length row = nat N"
    by (rule block_rows)
  then have "\<forall>row\<in>set (map (map ?h) ?z). length row = nat N"
    by (rule map_map_rows)
  then have "\<forall>row\<in>set (cumsum_f64 (map (map ?h) ?z)). length row = nat N"
    by (rule cumsum_f64_rows)
  then have "\<forall>row\<in>set (map (map (f64_add (f64_log (Fin S)))) (cumsum_f64 (map (map ?h) ?z))). length row = nat N"
    by (rule map_map_rows)
  then have rows: "\<forall>row\<in>set ?P. length row = nat N"
    by (rule map_map_rows)
  from eq len rows show ?thesis by blast
qed

lemma geo_paths_f64_errors:
  "geo_paths_f64 alloc S T r q sigma steps N g = Inl e \<longleftrightarrow>
     (steps = 0 \<and> e = ZeroDivisionError)
   \<or> ((float_ovf \<le> \<bar>real_of_int steps\<bar> \<or> steps \<noteq> 0 \<and> float_ovf \<le> sigma\<^sup>2) \<and> e = OverflowError)
   \<or> (steps \<noteq> 0 \<and> \<bar>real_of_int steps\<bar> < float_ovf \<and> sigma\<^sup>2 < float_ovf
        \<and> (steps < 0 \<or> N < 0 \<or> intp_max < steps \<or> intp_max < N
             \<or> intp_max < 8 * steps * (if N = 0 then 1 else N))
        \<and> e = ValueError)
   \<or> (1 \<le> steps \<and> 0 \<le> N \<and> steps \<le> intp_max \<and> N \<le> intp_max
        \<and> 8 * steps * (if N = 0 then 1 else N) \<le> intp_max \<and> sigma\<^sup>2 < float_ovf
        \<and> \<not> alloc (8 * nat steps * nat N) \<and> e = MemoryError)"
  (is "?L \<longleftrightarrow> ?R")
proof -
  let ?bad = "steps < 0 \<or> N < 0 \<or> intp_max < steps \<or> intp_max < N
           \<or> intp_max < 8 * steps * (if N = 0 then 1 else N)"
  have z0: "\<not> float_ovf \<le> \<bar>real_of_int 0\<bar>"
    using float_ovf_pos by simp
  consider (zero) "steps = 0"
    | (big) "steps \<noteq> 0" "float_ovf \<le> \<bar>real_of_int steps\<bar>"
    | (sig) "steps \<noteq> 0" "\<not> float_ovf \<le> \<bar>real_of_int steps\<bar>" "float_ovf \<le> sigma\<^sup>2"
    | (dim) "steps \<noteq> 0" "\<not> float_ovf \<le> \<bar>real_of_int steps\<bar>" "\<not> float_ovf \<le> sigma\<^sup>2" "?bad"
    | (mem) "steps \<noteq> 0" "\<not> float_ovf \<le> \<bar>real_of_int steps\<bar>" "\<not> float_ovf \<le> sigma\<^sup>2" "\<not> ?bad"
            "\<not> alloc (8 * nat steps * nat N)"
    | (ok) "steps \<noteq> 0" "\<not> float_ovf \<le> \<bar>real_of_int steps\<bar>" "\<not> float_ovf \<le> sigma\<^sup>2" "\<not> ?bad"
            "alloc (8 * nat steps * nat N)"
    by blast
  then show ?thesis
  proof cases
    case zero
    have "geo_paths_f64 alloc S T r q sigma steps N g = Inl ZeroDivisionError"
      unfolding zero by (rule geo_paths_f64_steps_zero)
    with zero z0 show ?thesis by auto
  next
    case big
    then have "geo_paths_f64 alloc S T r q sigma steps N g = Inl OverflowError"
      by (intro geo_paths_f64_steps_too_large)
    moreover from big(2) have "\<not> (0 \<le> steps \<and> steps \<le> intp_max)"
      using intp_no_ovf[of steps] by blast
    ultimately show ?thesis using big by auto
  next
    case sig
    then have "geo_paths_f64 alloc S T r q sigma steps N g = Inl OverflowError"
      by (intro geo_paths_f64_sigma_too_large)
    with sig show ?thesis by auto
  next
    case dim
    then have "geo_paths_f64 alloc S T r q sigma steps N g = Inl ValueError"
      by (intro geo_paths_f64_bad_dims)
    with dim show ?thesis by auto
  next
    case mem
    then have "geo_paths_f64 alloc S T r q sigma steps N g = Inl MemoryError"
      by (intro geo_paths_f64_no_memory)
    with mem show ?thesis by auto
  next
    case ok
    then have "1 \<le> steps" "0 \<le> N" "steps \<le> intp_max" "N \<le> intp_max"
      "8 * steps * (if N = 0 then 1 else N) \<le> intp_max"
      by auto
    from geo_paths_f64_shape[of steps N alloc sigma S T r q g, OF this ok(5,3)]
    obtain path g' where "geo_paths_f64 alloc S T r q sigma steps N g = Inr (path, g')"
      by blast
    with ok show ?thesis by auto
  qed
qed

subsection \<open>Runs of one cell\<close>

lemma in_range_mid: "1 / 2 \<le> \<bar>x\<bar> \<Longrightarrow> \<bar>x\<bar> \<le> 2 ^ 20 \<Longrightarrow> in_range x"
proof (rule in_range_between)
  assume lo: "1 / 2 \<le> \<bar>x\<bar>" and hi: "\<bar>x\<bar> \<le> 2 ^ 20"
  have "(2::real) ^ 1 \<le> 2 ^ 1074" by (rule power_increasing) simp_all
  then have "1 / (2::real) ^ 1074 \<le> 1 / 2 ^ 1"
    by (intro divide_left_mono mult_pos_pos zero_less_power) simp_all
  with lo show "1 / 2 ^ 1074 \<le> \<bar>x\<bar>" by simp
  have "(2::real) ^ 20 \<le> 2 ^ 1023" by (rule power_increasing) simp_all
  with hi show "\<bar>x\<bar> \<le> 2 ^ 1023" by (rule order_trans)
qed

lemma fl_mid: "1 / 2 \<le> \<bar>x\<bar> \<Longrightarrow> \<bar>x\<bar> \<le> 2 ^ 20 \<Longrightarrow> fl x = Fin x"
  by (intro fl_Fin in_range_mid)

lemma fl_ovf_mid: "\<bar>x\<bar> \<le> 2 ^ 20 \<Longrightarrow> fl_ovf x = Fin x"
proof (rule fl_ovf_Fin)
  assume "\<bar>x\<bar> \<le> 2 ^ 20"
  also have "(2::real) ^ 20 \<le> 2 ^ 1023" by (rule power_increasing) simp_all
  also note float_ovf_gt
  finally show "\<bar>x\<bar> < float_ovf" .
qed

lemma fl_zero: "fl 0 = Fin 0"
  using in_range_0 by (rule fl_Fin)

lemma not_ovf_mid: "\<bar>x\<bar> \<le> 2 ^ 20 \<Longrightarrow> \<not> float_ovf \<le> x"
proof -
  assume "\<bar>x\<bar> \<le> 2 ^ 20"
  also have "(2::real) ^ 20 \<le> 2 ^ 1023" by (rule power_increasing) simp_all
  also note float_ovf_gt
  finally show ?thesis by simp
qed




lemma geo_paths_f64_one_cell:
  assumes "\<not> float_ovf \<le> sigma\<^sup>2"
  shows "geo_paths_f64 unlimited S T r q sigma 1 1 zero_draws =
     Inr ([[f64_exp (f64_add (f64_log (Fin S))
              (f64_add
                (f64_multiply
                   (f64_subtract (f64_subtract (Fin r) (Fin q)) (f64_true_divide (fl (sigma\<^sup>2)) 2))
                   (fl T))
                (f64_multiply (f64_multiply (Fin sigma) (f64_sqrt (fl T))) (Fin 0))))]],
          zero_draws)"
proof -
  have "geo_paths_f64 unlimited S T r q sigma 1 1 zero_draws =
     Inr (map (map f64_exp) (map (map (f64_add (f64_log (Fin S))))
            (cumsum_f64 (map (map (\<lambda>x. f64_add
                (f64_multiply
                   (f64_subtract (f64_subtract (Fin r) (Fin q)) (f64_true_divide (fl (sigma\<^sup>2)) 2))
                   (fl (T / real_of_int 1)))
                (f64_multiply (f64_multiply (Fin sigma) (f64_sqrt (fl (T / real_of_int 1)))) x)))
              (map (\<lambda>i. map (\<lambda>j. Fin (zero_draws (i * nat 1 + j))) [0..<nat 1]) [0..<nat 1])))),
          (\<lambda>k. zero_draws (k + nat 1 * nat 1)))"
    using assms by (intro geo_paths_f64_unfold) (simp_all add: intp_max_def unlimited_def)
  also have "(\<lambda>k. zero_draws (k + nat 1 * nat 1)) = zero_draws"
    by (rule zero_draws_shift)
  also have "map (\<lambda>i. map (\<lambda>j. Fin (zero_draws (i * nat 1 + j))) [0..<nat 1]) [0..<nat 1] = [[Fin 0]]"
    by (simp add: zero_draws_def)
  also have "T / real_of_int 1 = T"
    by simp
  finally show ?thesis
    by (simp only: list.map cumsum_f64.simps cumsum_from_f64.simps)
qed



subsection \<open>The discretization formula\<close>




subsection \<open>Shape, finiteness and positivity\<close>




subsection \<open>No validation\<close>

text \<open>
  C4, as the code has it. \<open>geo_paths\<close> validates nothing and has no \<open>InvalidParameter\<close>
  error. Called with Python numbers as the page calls it, it fails in exactly these
  cases: \<open>ZeroDivisionError\<close> for \<open>steps = 0\<close>; \<open>OverflowError\<close> when \<open>steps\<close> is too large for a
  float or \<open>sigma**2\<close> overflows; otherwise \<open>ValueError\<close> when \<open>steps\<close> or \<open>N\<close> is negative or
  the dimensions or the byte size of the array exceed \<open>intp\<close>; otherwise \<open>MemoryError\<close> when
  the array is not allocated. In every other case it returns an array of shape
  \<open>(steps, N)\<close>, whatever \<open>S0\<close> and \<open>T\<close> are and whatever the sign of \<open>sigma\<close>; \<open>N = 0\<close> is not
  rejected either.
\<close>

theorem geo_paths_f64_no_validation:
  "(geo_paths_f64 alloc S T r q sigma steps N g = Inl e \<longleftrightarrow>
       (steps = 0 \<and> e = ZeroDivisionError)
     \<or> ((float_ovf \<le> \<bar>real_of_int steps\<bar> \<or> steps \<noteq> 0 \<and> float_ovf \<le> sigma\<^sup>2) \<and> e = OverflowError)
     \<or> (steps \<noteq> 0 \<and> \<bar>real_of_int steps\<bar> < float_ovf \<and> sigma\<^sup>2 < float_ovf
          \<and> (steps < 0 \<or> N < 0 \<or> intp_max < steps \<or> intp_max < N
               \<or> intp_max < 8 * steps * (if N = 0 then 1 else N))
          \<and> e = ValueError)
     \<or> (1 \<le> steps \<and> 0 \<le> N \<and> steps \<le> intp_max \<and> N \<le> intp_max
          \<and> 8 * steps * (if N = 0 then 1 else N) \<le> intp_max \<and> sigma\<^sup>2 < float_ovf
          \<and> \<not> alloc (8 * nat steps * nat N) \<and> e = MemoryError))
   \<and> (1 \<le> steps \<and> 0 \<le> N \<and> steps \<le> intp_max \<and> N \<le> intp_max
          \<and> 8 * steps * (if N = 0 then 1 else N) \<le> intp_max \<and> sigma\<^sup>2 < float_ovf
          \<and> alloc (8 * nat steps * nat N) \<longrightarrow>
        (\<exists>path g'. geo_paths_f64 alloc S T r q sigma steps N g = Inr (path, g')
           \<and> length path = nat steps \<and> (\<forall>row\<in>set path. length row = nat N)))"
proof (intro conjI impI)
  show "geo_paths_f64 alloc S T r q sigma steps N g = Inl e \<longleftrightarrow>
       (steps = 0 \<and> e = ZeroDivisionError)
     \<or> ((float_ovf \<le> \<bar>real_of_int steps\<bar> \<or> steps \<noteq> 0 \<and> float_ovf \<le> sigma\<^sup>2) \<and> e = OverflowError)
     \<or> (steps \<noteq> 0 \<and> \<bar>real_of_int steps\<bar> < float_ovf \<and> sigma\<^sup>2 < float_ovf
          \<and> (steps < 0 \<or> N < 0 \<or> intp_max < steps \<or> intp_max < N
               \<or> intp_max < 8 * steps * (if N = 0 then 1 else N))
          \<and> e = ValueError)
     \<or> (1 \<le> steps \<and> 0 \<le> N \<and> steps \<le> intp_max \<and> N \<le> intp_max
          \<and> 8 * steps * (if N = 0 then 1 else N) \<le> intp_max \<and> sigma\<^sup>2 < float_ovf
          \<and> \<not> alloc (8 * nat steps * nat N) \<and> e = MemoryError)"
    by (rule geo_paths_f64_errors)
next
  assume a: "1 \<le> steps \<and> 0 \<le> N \<and> steps \<le> intp_max \<and> N \<le> intp_max
          \<and> 8 * steps * (if N = 0 then 1 else N) \<le> intp_max \<and> sigma\<^sup>2 < float_ovf
          \<and> alloc (8 * nat steps * nat N)"
  then have "\<not> float_ovf \<le> sigma\<^sup>2" by simp
  with a show "\<exists>path g'. geo_paths_f64 alloc S T r q sigma steps N g = Inr (path, g')
           \<and> length path = nat steps \<and> (\<forall>row\<in>set path. length row = nat N)"
    by (intro geo_paths_f64_shape) simp_all
qed

text \<open>
  The returning case at \<open>S0 = 0\<close>, \<open>T = -1\<close>, \<open>sigma = -1\<close>, \<open>steps = 1\<close>, \<open>N = 1\<close>.
\<close>

theorem geo_paths_f64_no_validation_witness:
  "(1::int) \<le> 1 \<and> (0::int) \<le> 1 \<and> (1::int) \<le> intp_max
   \<and> 8 * 1 * (if (1::int) = 0 then 1 else 1) \<le> intp_max \<and> (- 1 :: real)\<^sup>2 < float_ovf
   \<and> unlimited (8 * nat 1 * nat 1) \<and>
   (\<exists>path g'. geo_paths_f64 unlimited 0 (- 1) 0 0 (- 1) 1 1 zero_draws = Inr (path, g')
           \<and> length path = nat 1 \<and> (\<forall>row\<in>set path. length row = nat 1))"
proof -
  have h: "(1::int) \<le> 1 \<and> (0::int) \<le> 1 \<and> (1::int) \<le> intp_max \<and> (1::int) \<le> intp_max
          \<and> 8 * 1 * (if (1::int) = 0 then 1 else 1) \<le> intp_max \<and> (- 1 :: real)\<^sup>2 < float_ovf
          \<and> unlimited (8 * nat 1 * nat 1)"
    using not_ovf_mid[of "(- 1)\<^sup>2"] by (simp add: intp_max_def unlimited_def)
  from geo_paths_f64_no_validation[of unlimited 0 "- 1" 0 0 "- 1" 1 1 zero_draws ZeroDivisionError]
  have "(1::int) \<le> 1 \<and> (0::int) \<le> 1 \<and> (1::int) \<le> intp_max \<and> (1::int) \<le> intp_max
          \<and> 8 * 1 * (if (1::int) = 0 then 1 else 1) \<le> intp_max \<and> (- 1 :: real)\<^sup>2 < float_ovf
          \<and> unlimited (8 * nat 1 * nat 1) \<longrightarrow>
        (\<exists>path g'. geo_paths_f64 unlimited 0 (- 1) 0 0 (- 1) 1 1 zero_draws = Inr (path, g')
           \<and> length path = nat 1 \<and> (\<forall>row\<in>set path. length row = nat 1))"
    by (rule conjunct2)
  with h show ?thesis by blast
qed

text \<open>
  C4 as stated fails: \<open>sigma = -1\<close> violates the precondition \<open>sigma > 0\<close>, and the
  call returns a one-entry ensemble instead of an error.
\<close>

theorem geo_paths_f64_negative_sigma_returns:
  "geo_paths_f64 unlimited 1 1 (1/2) 0 (- 1) 1 1 zero_draws = Inr ([[Fin 1]], zero_draws)"
proof -
  have "\<not> float_ovf \<le> (- 1::real)\<^sup>2"
    by (rule not_ovf_mid) simp
  then have "geo_paths_f64 unlimited 1 1 (1/2) 0 (- 1) 1 1 zero_draws =
     Inr ([[f64_exp (f64_add (f64_log (Fin 1))
              (f64_add
                (f64_multiply
                   (f64_subtract (f64_subtract (Fin (1/2)) (Fin 0)) (f64_true_divide (fl ((- 1)\<^sup>2)) 2))
                   (fl 1))
                (f64_multiply (f64_multiply (Fin (- 1)) (f64_sqrt (fl 1))) (Fin 0))))]],
          zero_draws)"
    by (rule geo_paths_f64_one_cell)
  also have "f64_exp (f64_add (f64_log (Fin 1))
              (f64_add
                (f64_multiply
                   (f64_subtract (f64_subtract (Fin (1/2)) (Fin 0)) (f64_true_divide (fl ((- 1)\<^sup>2)) 2))
                   (fl 1))
                (f64_multiply (f64_multiply (Fin (- 1)) (f64_sqrt (fl 1))) (Fin 0)))) = Fin 1"
    by (simp add: f64_subtract_def fl_mid fl_ovf_mid fl_zero)
  finally show ?thesis .
qed

subsection \<open>The two readings agree in range\<close>

lemma geo_paths_f64_agrees:
  assumes "0 < S" and "0 \<le> T" and "1 \<le> steps" and "0 \<le> N"
    and "steps \<le> intp_max" and "N \<le> intp_max" and "8 * steps * (if N = 0 then 1 else N) \<le> intp_max"
    and "alloc (8 * nat steps * nat N)" and "stays_in_range S T r q sigma steps N g"
  shows "geo_paths_f64 alloc S T r q sigma steps N g = geo_paths S T r q sigma steps N g"
proof -
  from assms(3) have "0 < steps" by simp
  from geo_paths_closed_form[OF assms(1,2) this assms(4)]
    geo_paths_f64_closed_form[where alloc = alloc, OF assms]
  show ?thesis by simp
qed

subsection \<open>Mean and standard deviation\<close>












end
